theory Spec2Isabelle
  imports Main "HOL-Library.Word"
begin

section \<open>A TFTP client: packets, download session, upload session\<close>

text \<open>
  The development embeds the client script \<^verbatim>\<open>server.py\<close>: the packet builders
  \<^verbatim>\<open>send_rrq\<close>, \<^verbatim>\<open>send_wrq\<close>, \<^verbatim>\<open>send_ack\<close> and the two sessions \<^verbatim>\<open>get_file\<close> and
  \<^verbatim>\<open>put_file\<close>.

  \<^item> A byte is an \<open>8 word\<close>; a \<^verbatim>\<open>bytes\<close> object is a list of bytes.
  \<^item> Python integers are unbounded, so block numbers are \<open>int\<close>.
  \<^item> The socket is modelled by its observable behaviour: every \<^verbatim>\<open>sendto\<close> is
    appended to a log, and the results of the successive \<^verbatim>\<open>recvfrom\<close> calls are
    given as a list (a datagram with its source address, or a timeout). When the list
    is exhausted no datagram ever arrives again, so \<^verbatim>\<open>recvfrom\<close> raises
    \<^verbatim>\<open>socket.timeout\<close>.
  \<^item> Local storage is a map from file names to contents. A write to the open file is
    visible in the map at once (buffering is not modelled), and \<^verbatim>\<open>open\<close>,
    \<^verbatim>\<open>write\<close> and \<^verbatim>\<open>os.remove\<close> are assumed not to fail.
  \<^item> File names are ASCII, so that \<^verbatim>\<open>len(filename)\<close> is the length of
    \<^verbatim>\<open>filename.encode()\<close>.
  \<^item> An uncaught exception (\<^verbatim>\<open>struct.error\<close>, \<^verbatim>\<open>KeyError\<close>) and
    \<^verbatim>\<open>sys.exit\<close> are outcomes of a session, next to the normal return.
\<close>

subsection \<open>Data model\<close>

type_synonym byte = "8 word"

type_synonym address = "string \<times> int"

datatype recv_result = Timeout | Datagram "byte list" address

datatype io =
    Sendto "byte list" address
  | Recvfrom "byte list" address
  | RecvTimeout
  | Print string

datatype exn = StructError | KeyError int

datatype outcome = Returned | SysExit int | Raised exn

record world =
  files :: "string \<rightharpoonup> byte list"
  log :: "io list"

subsection \<open>Constants\<close>

abbreviation BLOCK_SIZE :: nat where
  "BLOCK_SIZE \<equiv> 512"

definition DEFAULT_TRANSFER_MODE :: string where
  "DEFAULT_TRANSFER_MODE = ''octet''"

datatype opcode_name = RRQ | WRQ | DATA | ACK | ERROR

fun OPCODE :: "opcode_name \<Rightarrow> int" where
  "OPCODE RRQ = 1"
| "OPCODE WRQ = 2"
| "OPCODE DATA = 3"
| "OPCODE ACK = 4"
| "OPCODE ERROR = 5"

definition ERROR_CODE :: "int \<rightharpoonup> string" where
  "ERROR_CODE = map_of
     [(0, ''Not defined, see error message (if any).''),
      (1, ''File not found.''),
      (2, ''Access violation.''),
      (3, ''Disk full or allocation exceeded.''),
      (4, ''Illegal TFTP operation.''),
      (5, ''Unknown transfer ID.''),
      (6, ''File already exists.''),
      (7, ''No such user.'')]"

subsection \<open>Library functions the script calls\<close>

text \<open>\<^verbatim>\<open>int.from_bytes(bs, 'big')\<close>: the empty sequence gives 0.\<close>

definition int_from_bytes_big :: "byte list \<Rightarrow> int" where
  "int_from_bytes_big bs = foldl (\<lambda>acc b. acc * 256 + uint b) 0 bs"

text \<open>
  \<^verbatim>\<open>struct.pack('>h', n)\<close>: a signed 16-bit integer, big-endian, in two's complement;
  a value outside \<open>-32768..32767\<close> raises \<^verbatim>\<open>struct.error\<close>.
\<close>

definition pack_h :: "int \<Rightarrow> exn + byte list" where
  "pack_h n =
     (if -32768 \<le> n \<and> n \<le> 32767
      then Inr [word_of_int (n div 256), word_of_int n]
      else Inl StructError)"

text \<open>\<^verbatim>\<open>str.encode()\<close> on an ASCII string.\<close>

definition encode :: "string \<Rightarrow> byte list" where
  "encode s = map of_char s"

text \<open>The format \<^verbatim>\<open>'>h{len(filename)}sB{len(mode)}sB'\<close> of both requests.\<close>

definition pack_request :: "int \<Rightarrow> string \<Rightarrow> string \<Rightarrow> exn + byte list" where
  "pack_request opc filename mode =
     (case pack_h opc of
        Inl e \<Rightarrow> Inl e
      | Inr op \<Rightarrow> Inr (op @ encode filename @ [0] @ encode mode @ [0]))"

text \<open>The format \<^verbatim>\<open>'>hh'\<close>.\<close>

definition pack_hh :: "int \<Rightarrow> int \<Rightarrow> exn + byte list" where
  "pack_hh a b =
     (case pack_h a of
        Inl e \<Rightarrow> Inl e
      | Inr x \<Rightarrow> (case pack_h b of Inl e \<Rightarrow> Inl e | Inr y \<Rightarrow> Inr (x @ y)))"

text \<open>The format \<^verbatim>\<open>'>hh{len(file_block)}s'\<close>.\<close>

definition pack_hhs :: "int \<Rightarrow> int \<Rightarrow> byte list \<Rightarrow> exn + byte list" where
  "pack_hhs a b s =
     (case pack_hh a b of Inl e \<Rightarrow> Inl e | Inr x \<Rightarrow> Inr (x @ s))"

text \<open>Decimal digits of an integer, for the f-string of the error report.\<close>

fun str_nat :: "nat \<Rightarrow> string" where
  "str_nat n =
     (if n < 10 then [char_of (48 + n)]
      else str_nat (n div 10) @ [char_of (48 + n mod 10)])"

declare str_nat.simps [simp del]

definition str_int :: "int \<Rightarrow> string" where
  "str_int i = (if i < 0 then CHR ''-'' # str_nat (nat (- i)) else str_nat (nat i))"

definition sendto :: "byte list \<Rightarrow> address \<Rightarrow> world \<Rightarrow> world" where
  "sendto msg addr w = w\<lparr>log := log w @ [Sendto msg addr]\<rparr>"

definition print :: "string \<Rightarrow> world \<Rightarrow> world" where
  "print s w = w\<lparr>log := log w @ [Print s]\<rparr>"

text \<open>
  \<^verbatim>\<open>sock.recvfrom(bufsize)\<close> on the next result: a datagram is cut to \<open>bufsize\<close>
  bytes; \<open>None\<close> stands for \<^verbatim>\<open>socket.timeout\<close>.
\<close>

fun recvfrom :: "nat \<Rightarrow> recv_result list \<Rightarrow> world \<Rightarrow> (byte list \<times> address) option \<times> world" where
  "recvfrom bufsize [] w = (None, w\<lparr>log := log w @ [RecvTimeout]\<rparr>)"
| "recvfrom bufsize (Timeout # evs) w = (None, w\<lparr>log := log w @ [RecvTimeout]\<rparr>)"
| "recvfrom bufsize (Datagram d a # evs) w =
     (Some (take bufsize d, a), w\<lparr>log := log w @ [Recvfrom (take bufsize d) a]\<rparr>)"

text \<open>\<^verbatim>\<open>open(filename, 'wb')\<close>, \<^verbatim>\<open>file.write\<close> and \<^verbatim>\<open>os.remove\<close>.\<close>

definition open_wb :: "string \<Rightarrow> world \<Rightarrow> world" where
  "open_wb filename w = w\<lparr>files := (files w)(filename \<mapsto> [])\<rparr>"

definition file_write :: "string \<Rightarrow> byte list \<Rightarrow> world \<Rightarrow> world" where
  "file_write filename bs w =
     w\<lparr>files := (files w)(filename \<mapsto>
         (case files w filename of None \<Rightarrow> bs | Some old \<Rightarrow> old @ bs))\<rparr>"

definition os_remove :: "string \<Rightarrow> world \<Rightarrow> world" where
  "os_remove filename w = w\<lparr>files := (files w)(filename := None)\<rparr>"

subsection \<open>Packet builders\<close>

definition send_rrq :: "string \<Rightarrow> string \<Rightarrow> address \<Rightarrow> world \<Rightarrow> exn + world" where
  "send_rrq filename mode server_address w =
     (case pack_request (OPCODE RRQ) filename mode of
        Inl e \<Rightarrow> Inl e
      | Inr rrq_message \<Rightarrow> Inr (sendto rrq_message server_address w))"

definition send_wrq :: "string \<Rightarrow> string \<Rightarrow> address \<Rightarrow> world \<Rightarrow> exn + world" where
  "send_wrq filename mode server_address w =
     (case pack_request (OPCODE WRQ) filename mode of
        Inl e \<Rightarrow> Inl e
      | Inr wrq_message \<Rightarrow> Inr (sendto wrq_message server_address w))"

definition send_ack :: "int \<Rightarrow> address \<Rightarrow> world \<Rightarrow> exn + world" where
  "send_ack block_num server_address w =
     (case pack_hh (OPCODE ACK) block_num of
        Inl e \<Rightarrow> Inl e
      | Inr ack_message \<Rightarrow> Inr (sendto ack_message server_address w))"

subsection \<open>Download session\<close>

text \<open>
  One pass through the body of the \<^verbatim>\<open>while True\<close> loop of \<^verbatim>\<open>get_file\<close>, for a
  datagram that \<^verbatim>\<open>recvfrom\<close> returned. \<open>Inl\<close> is a way out of the loop (a
  \<^verbatim>\<open>break\<close>, or an exception that nothing catches), \<open>Inr\<close> is the next value of
  \<^verbatim>\<open>expected_block_number\<close> for the next pass.
\<close>

definition get_file_body ::
  "string \<Rightarrow> int \<Rightarrow> byte list \<Rightarrow> address \<Rightarrow> world \<Rightarrow> (outcome \<times> world) + (int \<times> world)" where
  "get_file_body filename expected_block_number data server w =
     (let opcode = int_from_bytes_big (take 2 data) in
      if opcode = OPCODE DATA then
        (let block_number = int_from_bytes_big (take 2 (drop 2 data));
             file_block = drop 4 data
         in if block_number = expected_block_number then
              (let w1 = file_write filename file_block w in
               case send_ack block_number server w1 of
                 Inl e \<Rightarrow> Inl (Raised e, w1)
               | Inr w2 \<Rightarrow>
                   if length file_block < BLOCK_SIZE
                   then Inl (Returned, print ''File transfer completed.'' w2)
                   else Inr (expected_block_number + 1, w2))
            else if length file_block < BLOCK_SIZE
                 then Inl (Returned, print ''File transfer completed.'' w)
                 else Inr (expected_block_number, w))
      else if opcode = OPCODE ERROR then
        (let error_code = int_from_bytes_big (take 2 (drop 2 data)) in
         case ERROR_CODE error_code of
           None \<Rightarrow> Inl (Raised (KeyError error_code), w)
         | Some reason \<Rightarrow>
             Inl (Returned,
                  os_remove filename
                    (print (''Error '' @ str_int error_code @ '': '' @ reason) w)))
      else Inr (expected_block_number, w))"

text \<open>The \<^verbatim>\<open>except socket.timeout\<close> handler of \<^verbatim>\<open>get_file\<close>.\<close>

definition get_file_timeout :: "string \<Rightarrow> world \<Rightarrow> outcome \<times> world" where
  "get_file_timeout filename w =
     (SysExit 1,
      os_remove filename (print ''Timeout occurred. No response from server.'' w))"

function get_file_loop :: "string \<Rightarrow> int \<Rightarrow> world \<Rightarrow> recv_result list \<Rightarrow> outcome \<times> world" where
  "get_file_loop filename expected_block_number w evs =
     (case recvfrom 516 evs w of
        (None, w1) \<Rightarrow> get_file_timeout filename w1
      | (Some (data, server), w1) \<Rightarrow>
          (case get_file_body filename expected_block_number data server w1 of
             Inl result \<Rightarrow> result
           | Inr (expected_block_number', w2) \<Rightarrow>
               get_file_loop filename expected_block_number' w2 (tl evs)))"
  by pat_completeness auto

termination get_file_loop
proof (relation "measure (\<lambda>(filename, e, w, evs). length evs)")
  fix filename :: string and e e' :: int and w w1 w2 :: world
    and evs :: "recv_result list" and x r data server
  assume "(x, w1) = recvfrom 516 evs w" and "x = Some r" and "(data, server) = r"
  then have "evs \<noteq> []"
    by (cases evs) auto
  then show "((filename, e', w2, tl evs), (filename, e, w, evs))
      \<in> measure (\<lambda>(filename, e, w, evs). length evs)"
    by simp
qed simp

declare get_file_loop.simps [simp del]

definition get_file :: "string \<Rightarrow> address \<Rightarrow> world \<Rightarrow> recv_result list \<Rightarrow> outcome \<times> world" where
  "get_file filename server_address w evs =
     (case send_rrq filename DEFAULT_TRANSFER_MODE server_address w of
        Inl e \<Rightarrow> (Raised e, w)
      | Inr w1 \<Rightarrow> get_file_loop filename 1 (open_wb filename w1) evs)"

subsection \<open>Upload session\<close>

text \<open>
  One pass through the \<^verbatim>\<open>while True\<close> loop of \<^verbatim>\<open>put_file\<close>, from the
  \<^verbatim>\<open>pack\<close> of the block just read to the end of the \<^verbatim>\<open>try\<close> statement.
  \<open>Inl\<close> is the \<^verbatim>\<open>struct.error\<close> of \<^verbatim>\<open>pack\<close>, which nothing catches;
  \<open>Inr\<close> carries the value of \<^verbatim>\<open>block_number\<close> after the pass.
\<close>

definition put_file_body ::
  "address \<Rightarrow> int \<Rightarrow> byte list \<Rightarrow> world \<Rightarrow> recv_result list \<Rightarrow> exn + (int \<times> world)" where
  "put_file_body server_address block_number file_block w evs =
     (case pack_hhs (OPCODE DATA) (block_number + 1) file_block of
        Inl e \<Rightarrow> Inl e
      | Inr block_message \<Rightarrow>
          (case recvfrom 516 evs (sendto block_message server_address w) of
             (None, w1) \<Rightarrow>
               Inr (block_number,
                    print ''Timeout occurred while waiting for ACK. Resending...'' w1)
           | (Some (ack, server), w1) \<Rightarrow>
               (let ack_opcode = int_from_bytes_big (take 2 ack);
                    ack_block_number = int_from_bytes_big (take 2 (drop 2 ack))
                in if ack_opcode = OPCODE ACK \<and> ack_block_number = block_number + 1
                   then Inr (block_number + 1, w1)
                   else Inr (block_number,
                             print ''Unexpected ACK received. Resending...'' w1))))"

text \<open>
  The loop of \<^verbatim>\<open>put_file\<close>. \<open>content\<close> is what the read cursor of the open file
  has not passed yet: \<^verbatim>\<open>file.read(BLOCK_SIZE)\<close> returns its first 512 bytes (fewer at
  the end of the file) and moves the cursor past them.
\<close>

function put_file_loop ::
  "address \<Rightarrow> int \<Rightarrow> byte list \<Rightarrow> world \<Rightarrow> recv_result list \<Rightarrow> outcome \<times> world" where
  "put_file_loop server_address block_number content w evs =
     (let file_block = take BLOCK_SIZE content in
      case put_file_body server_address block_number file_block w evs of
        Inl e \<Rightarrow> (Raised e, w)
      | Inr (block_number', w1) \<Rightarrow>
          if length file_block < BLOCK_SIZE
          then (Returned, print ''File transfer completed.'' w1)
          else put_file_loop server_address block_number' (drop BLOCK_SIZE content) w1 (tl evs))"
  by pat_completeness auto

termination put_file_loop
  by (relation "measure (\<lambda>(a, b, content, w, evs). length content)") auto

declare put_file_loop.simps [simp del]

definition put_file :: "string \<Rightarrow> address \<Rightarrow> world \<Rightarrow> recv_result list \<Rightarrow> outcome \<times> world" where
  "put_file filename server_address w evs =
     (case files w filename of
        None \<Rightarrow> (SysExit 1, print ''Error: File does not exist.'' w)
      | Some content \<Rightarrow>
          (case send_wrq filename DEFAULT_TRANSFER_MODE server_address w of
             Inl e \<Rightarrow> (Raised e, w)
           | Inr w1 \<Rightarrow> put_file_loop server_address 0 content w1 evs))"

subsection \<open>The other side of the wire\<close>

text \<open>
  What the server puts on the wire, and what it reads from the client's packets. The
  wire format has a 16-bit big-endian opcode, then a 16-bit big-endian block number or
  error code. These definitions build inputs and observe outputs; they are not part
  of the client.
\<close>

definition u16_bytes :: "int \<Rightarrow> byte list" where
  "u16_bytes n = [word_of_int (n div 256), word_of_int n]"

definition data_packet :: "int \<Rightarrow> byte list \<Rightarrow> byte list" where
  "data_packet n payload = [0, 3] @ u16_bytes n @ payload"

definition ack_packet :: "int \<Rightarrow> byte list" where
  "ack_packet n = [0, 4] @ u16_bytes n"

definition packet_opcode :: "byte list \<Rightarrow> int" where
  "packet_opcode p = int_from_bytes_big (take 2 p)"

definition packet_block :: "byte list \<Rightarrow> int" where
  "packet_block p = int_from_bytes_big (take 2 (drop 2 p))"

text \<open>\<open>n\<close> full DATA blocks of zeros numbered from \<open>first\<close>, all from one address.\<close>

fun data_stream :: "int \<Rightarrow> nat \<Rightarrow> address \<Rightarrow> recv_result list" where
  "data_stream first 0 a = []"
| "data_stream first (Suc n) a =
     Datagram (data_packet first (replicate 512 0)) a # data_stream (first + 1) n a"

text \<open>\<open>n\<close> ACK packets numbered from \<open>first\<close>, all from one address.\<close>

fun ack_stream :: "int \<Rightarrow> nat \<Rightarrow> address \<Rightarrow> recv_result list" where
  "ack_stream first 0 a = []"
| "ack_stream first (Suc n) a = Datagram (ack_packet first) a # ack_stream (first + 1) n a"

text \<open>The block numbers of the ACK packets in a log, in the order they were sent.\<close>

fun sent_acks :: "io list \<Rightarrow> int list" where
  "sent_acks [] = []"
| "sent_acks (Sendto msg a # tr) =
     (if packet_opcode msg = 4 then packet_block msg # sent_acks tr else sent_acks tr)"
| "sent_acks (Recvfrom d a # tr) = sent_acks tr"
| "sent_acks (RecvTimeout # tr) = sent_acks tr"
| "sent_acks (Print s # tr) = sent_acks tr"

subsection \<open>Properties of a log\<close>

text \<open>
  Predicates on the log of a session, used to state what a run may look like.
  In a download every packet the client sends is either the request, first in the log
  and addressed to the configured server, or an ACK that directly follows the receipt
  of a DATA packet with the same block number and goes to the source of that packet.
  In an upload a DATA packet numbered \<open>n + 1\<close> with \<open>1 \<le> n\<close> is sent only after an
  ACK numbered \<open>n\<close> has been received.
\<close>

definition ack_answers_data :: "io list \<Rightarrow> byte list \<Rightarrow> address \<Rightarrow> bool" where
  "ack_answers_data pre msg dst =
     (\<exists>pre' d. pre = pre' @ [Recvfrom d dst] \<and> packet_opcode d = 3 \<and>
        packet_opcode msg = 4 \<and> packet_block msg = packet_block d)"

definition sends_justified :: "address \<Rightarrow> io list \<Rightarrow> bool" where
  "sends_justified srv L =
     (\<forall>pre msg dst post. L = pre @ Sendto msg dst # post \<longrightarrow>
        (pre = [] \<and> dst = srv \<and> packet_opcode msg = 1) \<or> ack_answers_data pre msg dst)"

definition ack_received :: "int \<Rightarrow> io list \<Rightarrow> bool" where
  "ack_received n L =
     (\<exists>d a. Recvfrom d a \<in> set L \<and> packet_opcode d = 4 \<and> packet_block d = n)"

definition lock_step :: "io list \<Rightarrow> bool" where
  "lock_step L =
     (\<forall>pre msg dst post n.
        L = pre @ Sendto msg dst # post \<and> packet_opcode msg = 3 \<and>
        packet_block msg = n + 1 \<and> 1 \<le> n \<longrightarrow> ack_received n pre)"

section \<open>Properties\<close>

subsection \<open>Unfolding the loops, and the codec\<close>

lemma get_file_loop_Nil:
  "get_file_loop filename e w [] = get_file_timeout filename (w\<lparr>log := log w @ [RecvTimeout]\<rparr>)"
  by (simp add: get_file_loop.simps)

lemma get_file_loop_Timeout:
  "get_file_loop filename e w (Timeout # evs) =
     get_file_timeout filename (w\<lparr>log := log w @ [RecvTimeout]\<rparr>)"
  by (simp add: get_file_loop.simps)

lemma get_file_loop_Datagram:
  "get_file_loop filename e w (Datagram d a # evs) =
     (case get_file_body filename e (take 516 d) a (w\<lparr>log := log w @ [Recvfrom (take 516 d) a]\<rparr>) of
        Inl result \<Rightarrow> result
      | Inr (e', w2) \<Rightarrow> get_file_loop filename e' w2 evs)"
  by (simp add: get_file_loop.simps split: sum.split prod.split)

lemma put_file_loop_unfold:
  "put_file_loop server_address b content w evs =
     (case put_file_body server_address b (take 512 content) w evs of
        Inl e \<Rightarrow> (Raised e, w)
      | Inr (b', w1) \<Rightarrow>
          if length content < 512
          then (Returned, print ''File transfer completed.'' w1)
          else put_file_loop server_address b' (drop 512 content) w1 (tl evs))"
  by (subst put_file_loop.simps) (simp add: Let_def split: sum.split prod.split)

lemma int_from_bytes_big_simps:
  "int_from_bytes_big [] = 0"
  "int_from_bytes_big [a] = uint a"
  "int_from_bytes_big [a, b] = uint a * 256 + uint b"
  by (simp_all add: int_from_bytes_big_def)

lemma send_rrq_eq:
  "send_rrq filename mode a w =
     Inr (sendto ([0, 1] @ encode filename @ [0] @ encode mode @ [0]) a w)"
  by (simp add: send_rrq_def pack_request_def pack_h_def)

lemma send_wrq_eq:
  "send_wrq filename mode a w =
     Inr (sendto ([0, 2] @ encode filename @ [0] @ encode mode @ [0]) a w)"
  by (simp add: send_wrq_def pack_request_def pack_h_def)

lemma u16_roundtrip:
  assumes "0 \<le> n" "n < 65536"
  shows "uint (word_of_int (n div 256) :: byte) * 256 + uint (word_of_int n :: byte) = n"
proof -
  have "n div 256 < 256" using assms by simp
  moreover have "0 \<le> n div 256" using assms by simp
  ultimately have "(n div 256) mod 256 = n div 256" by simp
  then show ?thesis by (simp add: uint_word_of_int)
qed

lemma packet_block_u16:
  "0 \<le> n \<Longrightarrow> n < 65536 \<Longrightarrow> packet_block (x # y # u16_bytes n @ rest) = n"
  by (simp add: packet_block_def u16_bytes_def int_from_bytes_big_simps u16_roundtrip)

lemma pack_hh_ok:
  "- 32768 \<le> n \<Longrightarrow> n \<le> 32767 \<Longrightarrow> pack_hh 4 n = Inr ([0, 4] @ u16_bytes n)"
  "- 32768 \<le> n \<Longrightarrow> n \<le> 32767 \<Longrightarrow> pack_hh 3 n = Inr ([0, 3] @ u16_bytes n)"
  by (simp_all add: pack_hh_def pack_h_def u16_bytes_def)

lemma pack_hh_overflow: "32767 < n \<Longrightarrow> pack_hh k n = Inl StructError"
  by (simp add: pack_hh_def pack_h_def split: sum.split)

lemma send_ack_ok:
  "- 32768 \<le> n \<Longrightarrow> n \<le> 32767 \<Longrightarrow> send_ack n a w = Inr (sendto (ack_packet n) a w)"
  by (simp add: send_ack_def pack_hh_ok ack_packet_def)

lemma send_ack_overflow: "32767 < n \<Longrightarrow> send_ack n a w = Inl StructError"
  by (simp add: send_ack_def pack_hh_overflow)

lemma get_file_body_data:
  "get_file_body filename e (data_packet n payload) a w =
     (if packet_block (data_packet n payload) = e then
        (case send_ack e a (file_write filename payload w) of
           Inl ex \<Rightarrow> Inl (Raised ex, file_write filename payload w)
         | Inr w2 \<Rightarrow>
             if length payload < 512
             then Inl (Returned, print ''File transfer completed.'' w2)
             else Inr (e + 1, w2))
      else if length payload < 512
           then Inl (Returned, print ''File transfer completed.'' w)
           else Inr (e, w))"
  by (simp add: get_file_body_def data_packet_def u16_bytes_def packet_block_def
      int_from_bytes_big_simps Let_def)

lemma take_516_full_data:
  "length payload = 512 \<Longrightarrow> take 516 (data_packet n payload) = data_packet n payload"
  by (simp add: data_packet_def u16_bytes_def)

lemma get_file_loop_full_blocks:
  "1 \<le> e \<Longrightarrow> e + int n \<le> 32768 \<Longrightarrow>
     \<exists>w'. get_file_loop filename e w (data_stream e n a @ evs) =
           get_file_loop filename (e + int n) w' evs"
proof (induction n arbitrary: e w)
  case 0
  then show ?case by auto
next
  case (Suc n)
  have blk: "packet_block (data_packet e (replicate 512 0)) = e"
    using Suc.prems by (simp add: data_packet_def packet_block_u16)
  have step: "get_file_loop filename e w (data_stream e (Suc n) a @ evs) =
      get_file_loop filename (e + 1)
        (sendto (ack_packet e) a (file_write filename (replicate 512 0)
           (w\<lparr>log := log w @ [Recvfrom (data_packet e (replicate 512 0)) a]\<rparr>)))
        (data_stream (e + 1) n a @ evs)"
    using Suc.prems
    by (simp add: get_file_loop_Datagram take_516_full_data get_file_body_data blk send_ack_ok)
  have "1 \<le> e + 1" and "e + 1 + int n \<le> 32768"
    using Suc.prems by auto
  from Suc.IH [OF this] obtain w' where
    "get_file_loop filename (e + 1)
        (sendto (ack_packet e) a (file_write filename (replicate 512 0)
           (w\<lparr>log := log w @ [Recvfrom (data_packet e (replicate 512 0)) a]\<rparr>)))
        (data_stream (e + 1) n a @ evs) =
     get_file_loop filename (e + 1 + int n) w' evs"
    by blast
  moreover have "e + 1 + int n = e + int (Suc n)"
    by simp
  ultimately have "get_file_loop filename e w (data_stream e (Suc n) a @ evs) =
     get_file_loop filename (e + int (Suc n)) w' evs"
    using step by metis
  then show ?case ..
qed

lemma pack_data_small:
  "pack_hhs 3 1 s = Inr ([0, 3, 0, 1] @ s)"
  "pack_hhs 3 2 s = Inr ([0, 3, 0, 2] @ s)"
  by (simp_all add: pack_hhs_def pack_hh_def pack_h_def)

lemma int_from_bytes_big_nonneg: "0 \<le> int_from_bytes_big bs"
proof -
  have "0 \<le> acc \<Longrightarrow> 0 \<le> foldl (\<lambda>acc b. acc * 256 + uint b) acc bs" for acc :: int
    by (induction bs arbitrary: acc) auto
  then show ?thesis by (simp add: int_from_bytes_big_def)
qed

lemma packet_block_nonneg: "0 \<le> packet_block p"
  by (simp add: packet_block_def int_from_bytes_big_nonneg)

lemma get_file_body_DATA:
  "packet_opcode data = 3 \<Longrightarrow>
   get_file_body filename e data a w =
     (if packet_block data = e then
        (case send_ack e a (file_write filename (drop 4 data) w) of
           Inl ex \<Rightarrow> Inl (Raised ex, file_write filename (drop 4 data) w)
         | Inr w2 \<Rightarrow>
             if length (drop 4 data) < 512
             then Inl (Returned, print ''File transfer completed.'' w2)
             else Inr (e + 1, w2))
      else if length (drop 4 data) < 512
           then Inl (Returned, print ''File transfer completed.'' w)
           else Inr (e, w))"
  by (simp add: get_file_body_def packet_opcode_def packet_block_def Let_def)

lemma get_file_body_other:
  "packet_opcode data \<noteq> 3 \<Longrightarrow> packet_opcode data \<noteq> 5 \<Longrightarrow>
   get_file_body filename e data a w = Inr (e, w)"
  by (simp add: get_file_body_def packet_opcode_def)


lemma get_file_body_full_data:
  assumes "packet_opcode data = 3" and "length (drop 4 data) = 512"
  shows "get_file_body filename e data a w \<noteq> Inl (Returned, w')"
  using assms by (simp add: get_file_body_DATA split: sum.split)

lemma pack_hhs_ok:
  "- 32768 \<le> n \<Longrightarrow> n \<le> 32767 \<Longrightarrow> pack_hhs 3 n s = Inr (data_packet n s)"
  by (simp add: pack_hhs_def pack_hh_ok data_packet_def)

lemma pack_hhs_overflow: "32767 < n \<Longrightarrow> pack_hhs k n s = Inl StructError"
  by (simp add: pack_hhs_def pack_hh_overflow)

lemma put_file_body_ok:
  "0 \<le> b \<Longrightarrow> b < 32767 \<Longrightarrow>
   put_file_body srv b blk w evs =
     (case recvfrom 516 evs (sendto (data_packet (b + 1) blk) srv w) of
        (None, w1) \<Rightarrow>
          Inr (b, print ''Timeout occurred while waiting for ACK. Resending...'' w1)
      | (Some (ack, server), w1) \<Rightarrow>
          if packet_opcode ack = 4 \<and> packet_block ack = b + 1
          then Inr (b + 1, w1)
          else Inr (b, print ''Unexpected ACK received. Resending...'' w1))"
  by (simp add: put_file_body_def pack_hhs_ok packet_opcode_def packet_block_def Let_def
      split: prod.split option.split)

lemma put_file_body_overflow: "32767 \<le> b \<Longrightarrow> put_file_body srv b blk w evs = Inl StructError"
  by (simp add: put_file_body_def pack_hhs_overflow)

lemma recvfrom_log:
  "recvfrom n evs w = (r, w') \<Longrightarrow> \<exists>x. log w' = log w @ [x]"
  by (induction n evs w rule: recvfrom.induct) auto

lemma put_file_body_first_send:
  assumes "0 \<le> b" and "b < 32767"
  shows "\<exists>b' w1 L. put_file_body srv b blk w evs = Inr (b', w1) \<and>
           log w1 = log w @ Sendto (data_packet (b + 1) blk) srv # L"
proof -
  obtain r w' where r: "recvfrom 516 evs (sendto (data_packet (b + 1) blk) srv w) = (r, w')"
    by (cases "recvfrom 516 evs (sendto (data_packet (b + 1) blk) srv w)")
  then obtain x where "log w' = log w @ [Sendto (data_packet (b + 1) blk) srv, x]"
    using recvfrom_log [OF r] by (auto simp add: sendto_def)
  then show ?thesis
    using assms r by (auto simp add: put_file_body_ok print_def split: option.split)
qed

lemma put_file_body_log:
  assumes "put_file_body srv b blk w evs = Inr (b', w1)"
  shows "\<exists>L. log w1 = log w @ L"
proof -
  from assms obtain m where m: "pack_hhs 3 (b + 1) blk = Inr m"
    by (auto simp add: put_file_body_def split: sum.splits)
  obtain r w' where r: "recvfrom 516 evs (sendto m srv w) = (r, w')"
    by (cases "recvfrom 516 evs (sendto m srv w)")
  from recvfrom_log [OF r] obtain x where "log w' = log w @ [Sendto m srv, x]"
    by (auto simp add: sendto_def)
  then show ?thesis
    using assms m r
    by (auto simp add: put_file_body_def print_def Let_def split: option.splits if_splits)
qed

lemma put_file_loop_log_extends:
  "\<exists>L. log (snd (put_file_loop srv b content w evs)) = log w @ L"
proof (induction srv b content w evs rule: put_file_loop.induct)
  case (1 srv b content w evs)
  show ?case
  proof (cases "put_file_body srv b (take 512 content) w evs")
    case (Inl e)
    then show ?thesis
      by (subst put_file_loop_unfold) simp
  next
    case (Inr r)
    obtain b' w1 where r: "r = (b', w1)" by (cases r)
    from Inr r obtain L where L: "log w1 = log w @ L"
      using put_file_body_log by blast
    show ?thesis
    proof (cases "length content < 512")
      case True
      then show ?thesis
        using Inr r L by (subst put_file_loop_unfold) (simp add: print_def)
    next
      case False
      then have "\<exists>L'. log (snd (put_file_loop srv b' (drop 512 content) w1 (tl evs))) =
          log w1 @ L'"
        using "1.IH" [OF refl _ r [symmetric]] Inr r by simp
      then show ?thesis
        using Inr r L False by (subst put_file_loop_unfold) auto
    qed
  qed
qed

lemma put_file_loop_first_send:
  assumes "0 \<le> b" and "b < 32767"
  shows "\<exists>L. log (snd (put_file_loop srv b content w evs)) =
           log w @ Sendto (data_packet (b + 1) (take 512 content)) srv # L"
proof -
  obtain b' w1 L1 where body: "put_file_body srv b (take 512 content) w evs = Inr (b', w1)"
    and w1: "log w1 = log w @ Sendto (data_packet (b + 1) (take 512 content)) srv # L1"
    using put_file_body_first_send [OF assms] by blast
  show ?thesis
  proof (cases "length content < 512")
    case True
    then show ?thesis
      using body w1 by (subst put_file_loop_unfold) (simp add: print_def)
  next
    case False
    obtain L' where "log (snd (put_file_loop srv b' (drop 512 content) w1 (tl evs))) = log w1 @ L'"
      using put_file_loop_log_extends by blast
    then show ?thesis
      using body w1 False by (subst put_file_loop_unfold) simp
  qed
qed

subsection \<open>Invariant rules for the two loops\<close>

text \<open>
  A property \<open>F\<close> of the result of a loop follows from an invariant \<open>I\<close> of the loop
  variables that every pass through the body keeps, and that gives \<open>F\<close> on every way
  out of the loop.
\<close>

lemma get_file_loop_rule:
  assumes "I e w"
    and timeout: "\<And>e w. I e w \<Longrightarrow> F (get_file_timeout filename (w\<lparr>log := log w @ [RecvTimeout]\<rparr>))"
    and body: "\<And>e w data a. I e w \<Longrightarrow>
      (case get_file_body filename e data a (w\<lparr>log := log w @ [Recvfrom data a]\<rparr>) of
         Inl r \<Rightarrow> F r
       | Inr (e', w') \<Rightarrow> I e' w')"
  shows "F (get_file_loop filename e w evs)"
  using assms(1)
proof (induction evs arbitrary: e w)
  case Nil
  then show ?case by (simp add: get_file_loop_Nil timeout)
next
  case (Cons ev evs)
  show ?case
  proof (cases ev)
    case Timeout
    then show ?thesis using Cons.prems by (simp add: get_file_loop_Timeout timeout)
  next
    case (Datagram d a)
    show ?thesis
      using body [OF Cons.prems, of "take 516 d" a] Cons.IH
      by (auto simp add: Datagram get_file_loop_Datagram split: sum.splits)
  qed
qed

lemma put_file_loop_rule:
  assumes "I b w"
    and body: "\<And>srv b blk w evs. I b w \<Longrightarrow>
      (case put_file_body srv b blk w evs of
         Inl e \<Rightarrow> F (Raised e, w)
       | Inr (b', w1) \<Rightarrow> I b' w1 \<and> F (Returned, print ''File transfer completed.'' w1))"
  shows "F (put_file_loop srv b content w evs)"
  using assms(1)
proof (induction srv b content w evs rule: put_file_loop.induct)
  case (1 srv b content w evs)
  show ?case
  proof (cases "put_file_body srv b (take 512 content) w evs")
    case (Inl e)
    then have "F (Raised e, w)"
      using body [OF "1.prems", of srv "take 512 content" evs] by simp
    then show ?thesis
      using Inl by (subst put_file_loop_unfold) simp
  next
    case (Inr r)
    obtain b' w1 where r: "r = (b', w1)" by (cases r)
    have I': "I b' w1" and F': "F (Returned, print ''File transfer completed.'' w1)"
      using body [OF "1.prems", of srv "take 512 content" evs] Inr r by auto
    show ?thesis
    proof (cases "length content < 512")
      case True
      then show ?thesis
        using Inr r F' by (subst put_file_loop_unfold) simp
    next
      case False
      then have "F (put_file_loop srv b' (drop 512 content) w1 (tl evs))"
        using "1.IH" [OF refl _ r [symmetric] _ I'] Inr r by simp
      then show ?thesis
        using Inr r False by (subst put_file_loop_unfold) simp
    qed
  qed
qed

lemma send_ack_cases:
  "send_ack n a w =
     (if - 32768 \<le> n \<and> n \<le> 32767 then Inr (sendto (ack_packet n) a w) else Inl StructError)"
  by (simp add: send_ack_def pack_hh_def pack_h_def ack_packet_def u16_bytes_def)

lemma get_file_body_ERROR:
  "packet_opcode data = 5 \<Longrightarrow>
   get_file_body filename e data a w =
     (case ERROR_CODE (packet_block data) of
        None \<Rightarrow> Inl (Raised (KeyError (packet_block data)), w)
      | Some reason \<Rightarrow>
          Inl (Returned,
               os_remove filename
                 (print (''Error '' @ str_int (packet_block data) @ '': '' @ reason) w)))"
  by (simp add: get_file_body_def packet_opcode_def packet_block_def Let_def
      split: option.split)

subsection \<open>Logs and packets\<close>

lemma log_simps:
  "log (sendto m a w) = log w @ [Sendto m a]"
  "log (print s w) = log w @ [Print s]"
  "log (file_write filename bs w) = log w"
  "log (os_remove filename w) = log w"
  "log (open_wb filename w) = log w"
  by (simp_all add: sendto_def print_def file_write_def os_remove_def open_wb_def)

lemma snoc_eq_append_Cons:
  "xs @ [x] = pre @ y # post \<longleftrightarrow>
     (post = [] \<and> xs = pre \<and> x = y) \<or> (\<exists>post'. post = post' @ [x] \<and> xs = pre @ y # post')"
  by (cases post rule: rev_cases) auto

lemma packet_opcode_ack: "packet_opcode (ack_packet n) = 4"
  by (simp add: packet_opcode_def ack_packet_def int_from_bytes_big_simps)

lemma packet_block_ack: "0 \<le> n \<Longrightarrow> n < 65536 \<Longrightarrow> packet_block (ack_packet n) = n"
  using packet_block_u16 [of n 0 4 "[]"] by (simp add: ack_packet_def)

lemma packet_opcode_data: "packet_opcode (data_packet n blk) = 3"
  by (simp add: packet_opcode_def data_packet_def int_from_bytes_big_simps)

lemma packet_block_data: "0 \<le> n \<Longrightarrow> n < 65536 \<Longrightarrow> packet_block (data_packet n blk) = n"
  using packet_block_u16 [of n 0 3 blk] by (simp add: data_packet_def)

lemma packet_opcode_request:
  "packet_opcode ([0, 1] @ rest) = 1" "packet_opcode ([0, 2] @ rest) = 2"
  by (simp_all add: packet_opcode_def int_from_bytes_big_simps)

subsection \<open>Where the download session sends its packets\<close>

lemma sends_justified_snoc:
  assumes "sends_justified srv L" and "\<And>m a. x \<noteq> Sendto m a"
  shows "sends_justified srv (L @ [x])"
  unfolding sends_justified_def
proof (intro allI impI)
  fix pre msg dst post
  assume "L @ [x] = pre @ Sendto msg dst # post"
  then obtain post' where "L = pre @ Sendto msg dst # post'"
    using assms(2) by (auto simp add: snoc_eq_append_Cons)
  then show "(pre = [] \<and> dst = srv \<and> packet_opcode msg = 1) \<or> ack_answers_data pre msg dst"
    using assms(1) unfolding sends_justified_def by blast
qed

lemma sends_justified_ack:
  assumes "sends_justified srv L" and "packet_opcode d = 3" and "packet_opcode m = 4"
    and "packet_block m = packet_block d"
  shows "sends_justified srv (L @ [Recvfrom d a, Sendto m a])"
  unfolding sends_justified_def
proof (intro allI impI)
  fix pre msg dst post
  assume "L @ [Recvfrom d a, Sendto m a] = pre @ Sendto msg dst # post"
  then have "(L @ [Recvfrom d a]) @ [Sendto m a] = pre @ Sendto msg dst # post"
    by simp
  then consider "pre = L @ [Recvfrom d a]" "msg = m" "dst = a"
    | post' where "L @ [Recvfrom d a] = pre @ Sendto msg dst # post'"
    unfolding snoc_eq_append_Cons by auto
  then show "(pre = [] \<and> dst = srv \<and> packet_opcode msg = 1) \<or> ack_answers_data pre msg dst"
  proof cases
    case 1
    then show ?thesis using assms(2-4) by (auto simp add: ack_answers_data_def)
  next
    case 2
    then obtain post'' where "L = pre @ Sendto msg dst # post''"
      by (auto simp add: snoc_eq_append_Cons)
    then show ?thesis using assms(1) unfolding sends_justified_def by blast
  qed
qed

lemma sends_justified_rrq: "packet_opcode m = 1 \<Longrightarrow> sends_justified srv [Sendto m srv]"
  by (auto simp add: sends_justified_def Cons_eq_append_conv)

lemma get_file_body_justified:
  assumes "log w = L0 @ L" and "sends_justified srv L"
  shows "case get_file_body filename e data a (w\<lparr>log := log w @ [Recvfrom data a]\<rparr>) of
           Inl r \<Rightarrow> \<exists>L'. log (snd r) = L0 @ L' \<and> sends_justified srv L'
         | Inr (e', w') \<Rightarrow> \<exists>L'. log w' = L0 @ L' \<and> sends_justified srv L'"
proof -
  let ?w1 = "w\<lparr>log := log w @ [Recvfrom data a]\<rparr>"
  have j1: "sends_justified srv (L @ [Recvfrom data a])"
    using assms(2) by (rule sends_justified_snoc) simp
  have j1p: "sends_justified srv (L @ [Recvfrom data a, Print s])" for s
    using sends_justified_snoc [OF j1, of "Print s"] by simp
  consider (data) "packet_opcode data = 3" | (error) "packet_opcode data = 5"
    | (other) "packet_opcode data \<noteq> 3" "packet_opcode data \<noteq> 5"
    by blast
  then show ?thesis
  proof cases
    case data
    show ?thesis
    proof (cases "packet_block data = e \<and> e \<le> 32767")
      case True
      then have e: "0 \<le> e" "e < 65536"
        using packet_block_nonneg [of data] by auto
      have j2: "sends_justified srv (L @ [Recvfrom data a, Sendto (ack_packet e) a])"
        using assms(2) data True e
        by (intro sends_justified_ack) (simp_all add: packet_opcode_ack packet_block_ack)
      have j2p: "sends_justified srv (L @ [Recvfrom data a, Sendto (ack_packet e) a, Print s])" for s
        using sends_justified_snoc [OF j2, of "Print s"] by simp
      show ?thesis
        using data True e assms(1) j2 j2p
        by (simp add: get_file_body_DATA send_ack_cases log_simps)
    next
      case False
      then show ?thesis
        using data assms(1) j1 j1p packet_block_nonneg [of data]
        by (auto simp add: get_file_body_DATA send_ack_cases log_simps)
    qed
  next
    case error
    then show ?thesis
      using assms(1) j1 j1p
      by (simp add: get_file_body_ERROR log_simps split: option.split)
  next
    case other
    then show ?thesis
      using assms(1) j1 by (simp add: get_file_body_other)
  qed
qed

lemma get_file_loop_justified:
  assumes "log w = L0 @ L" and "sends_justified srv L"
  shows "\<exists>L'. log (snd (get_file_loop filename e w evs)) = L0 @ L' \<and> sends_justified srv L'"
proof (rule get_file_loop_rule
    [where I = "\<lambda>e w. \<exists>L. log w = L0 @ L \<and> sends_justified srv L"
       and F = "\<lambda>r. \<exists>L'. log (snd r) = L0 @ L' \<and> sends_justified srv L'"])
  show "\<exists>L. log w = L0 @ L \<and> sends_justified srv L"
    using assms by blast
next
  fix e :: int and w :: world
  assume "\<exists>L. log w = L0 @ L \<and> sends_justified srv L"
  then obtain L where L: "log w = L0 @ L" "sends_justified srv L" by blast
  have "sends_justified srv ((L @ [RecvTimeout]) @ [Print ''Timeout occurred. No response from server.''])"
    by (intro sends_justified_snoc L) simp_all
  then show "\<exists>L'. log (snd (get_file_timeout filename (w\<lparr>log := log w @ [RecvTimeout]\<rparr>))) = L0 @ L'
      \<and> sends_justified srv L'"
    using L(1) by (simp add: get_file_timeout_def log_simps)
next
  fix e :: int and w :: world and data :: "byte list" and a :: address
  assume "\<exists>L. log w = L0 @ L \<and> sends_justified srv L"
  then obtain L where L: "log w = L0 @ L" "sends_justified srv L" by blast
  show "case get_file_body filename e data a (w\<lparr>log := log w @ [Recvfrom data a]\<rparr>) of
          Inl r \<Rightarrow> \<exists>L'. log (snd r) = L0 @ L' \<and> sends_justified srv L'
        | Inr (e', w') \<Rightarrow> \<exists>L. log w' = L0 @ L \<and> sends_justified srv L"
    using get_file_body_justified [OF L] .
qed

subsection \<open>The block numbers the download session acknowledges\<close>

lemma sent_acks_append: "sent_acks (xs @ ys) = sent_acks xs @ sent_acks ys"
  by (induction xs rule: sent_acks.induct) auto

lemma sent_acks_ack:
  "0 \<le> n \<Longrightarrow> n < 65536 \<Longrightarrow> sent_acks [Sendto (ack_packet n) a] = [n]"
  by (simp add: packet_opcode_ack packet_block_ack)

lemma upto_snoc: "1 \<le> e \<Longrightarrow> [1..e - 1] @ [e] = [1..e]"
  using upto_rec2 [of 1 e] by simp

lemma get_file_body_acks:
  assumes "log w = L0 @ L" and "sent_acks L = [1..e - 1]" and "1 \<le> e"
  shows "case get_file_body filename e data a (w\<lparr>log := log w @ [Recvfrom data a]\<rparr>) of
           Inl r \<Rightarrow> \<exists>L' k. log (snd r) = L0 @ L' \<and> sent_acks L' = [1..k]
         | Inr (e', w') \<Rightarrow> 1 \<le> e' \<and> (\<exists>L'. log w' = L0 @ L' \<and> sent_acks L' = [1..e' - 1])"
proof -
  have a1: "sent_acks (L @ [Recvfrom data a]) = [1..e - 1]"
    using assms(2) by (simp add: sent_acks_append)
  have a1p: "sent_acks (L @ [Recvfrom data a, Print s]) = [1..e - 1]" for s
    using assms(2) by (simp add: sent_acks_append)
  consider (data) "packet_opcode data = 3" | (error) "packet_opcode data = 5"
    | (other) "packet_opcode data \<noteq> 3" "packet_opcode data \<noteq> 5"
    by blast
  then show ?thesis
  proof cases
    case data
    show ?thesis
    proof (cases "packet_block data = e \<and> e \<le> 32767")
      case True
      then have e: "0 \<le> e" "e < 65536"
        using assms(3) by auto
      have a2: "sent_acks (L @ [Recvfrom data a, Sendto (ack_packet e) a]) = [1..e]"
        using assms(2,3) e by (simp add: sent_acks_append packet_opcode_ack packet_block_ack upto_snoc)
      have a2p: "sent_acks (L @ [Recvfrom data a, Sendto (ack_packet e) a, Print s]) = [1..e]" for s
        using assms(2,3) e by (simp add: sent_acks_append packet_opcode_ack packet_block_ack upto_snoc)
      show ?thesis
        using data True e assms(1,3) a2 a2p
        by (auto simp add: get_file_body_DATA send_ack_cases log_simps)
    next
      case False
      then show ?thesis
        using data assms(1,3) a1 a1p
        by (auto simp add: get_file_body_DATA send_ack_cases log_simps)
    qed
  next
    case error
    then show ?thesis
      using assms(1) a1 a1p
      by (auto simp add: get_file_body_ERROR log_simps split: option.split)
  next
    case other
    then show ?thesis
      using assms(1,3) a1 by (auto simp add: get_file_body_other)
  qed
qed

lemma get_file_loop_acks:
  assumes "log w = L0 @ L" and "sent_acks L = [1..e - 1]" and "1 \<le> e"
  shows "\<exists>L' k. log (snd (get_file_loop filename e w evs)) = L0 @ L' \<and> sent_acks L' = [1..k]"
proof (rule get_file_loop_rule
    [where I = "\<lambda>e w. 1 \<le> e \<and> (\<exists>L. log w = L0 @ L \<and> sent_acks L = [1..e - 1])"
       and F = "\<lambda>r. \<exists>L' k. log (snd r) = L0 @ L' \<and> sent_acks L' = [1..k]"])
  show "1 \<le> e \<and> (\<exists>L. log w = L0 @ L \<and> sent_acks L = [1..e - 1])"
    using assms by blast
next
  fix e :: int and w :: world
  assume "1 \<le> e \<and> (\<exists>L. log w = L0 @ L \<and> sent_acks L = [1..e - 1])"
  then obtain L where L: "log w = L0 @ L" "sent_acks L = [1..e - 1]" by blast
  have "sent_acks (L @ [RecvTimeout, Print ''Timeout occurred. No response from server.'']) =
      [1..e - 1]"
    using L(2) by (simp add: sent_acks_append)
  then show "\<exists>L' k. log (snd (get_file_timeout filename (w\<lparr>log := log w @ [RecvTimeout]\<rparr>))) =
      L0 @ L' \<and> sent_acks L' = [1..k]"
    using L(1) by (auto simp add: get_file_timeout_def log_simps)
next
  fix e :: int and w :: world and data :: "byte list" and a :: address
  assume "1 \<le> e \<and> (\<exists>L. log w = L0 @ L \<and> sent_acks L = [1..e - 1])"
  then obtain L where L: "log w = L0 @ L" "sent_acks L = [1..e - 1]" "1 \<le> e" by blast
  show "case get_file_body filename e data a (w\<lparr>log := log w @ [Recvfrom data a]\<rparr>) of
          Inl r \<Rightarrow> \<exists>L' k. log (snd r) = L0 @ L' \<and> sent_acks L' = [1..k]
        | Inr (e', w') \<Rightarrow> 1 \<le> e' \<and> (\<exists>L. log w' = L0 @ L \<and> sent_acks L = [1..e' - 1])"
    using get_file_body_acks [OF L] .
qed

lemma get_file_acks:
  "\<exists>L k. log (snd (get_file filename server_address w evs)) = log w @ L \<and> sent_acks L = [1..k]"
proof -
  let ?rrq = "[0, 1] @ encode filename @ [0] @ encode DEFAULT_TRANSFER_MODE @ [0]"
  let ?w1 = "open_wb filename (sendto ?rrq server_address w)"
  have l: "log ?w1 = log w @ [Sendto ?rrq server_address]"
    by (simp add: log_simps)
  have s: "sent_acks [Sendto ?rrq server_address] = [1..1 - 1]"
    by (simp add: packet_opcode_def int_from_bytes_big_simps)
  have "\<exists>L' k. log (snd (get_file_loop filename 1 ?w1 evs)) = log w @ L' \<and>
      sent_acks L' = [1..k]"
    using get_file_loop_acks [OF l s] by simp
  then show ?thesis
    by (simp add: get_file_def send_rrq_eq)
qed

subsection \<open>DATA packets of the upload session follow their ACKs\<close>

lemma ack_received_append: "ack_received n L \<Longrightarrow> ack_received n (L @ xs)"
  by (auto simp add: ack_received_def)

lemma lock_step_snoc:
  assumes "lock_step L" and "\<And>m a. x \<noteq> Sendto m a"
  shows "lock_step (L @ [x])"
  unfolding lock_step_def
proof (intro allI impI)
  fix pre msg dst post n
  assume a: "L @ [x] = pre @ Sendto msg dst # post \<and> packet_opcode msg = 3 \<and>
    packet_block msg = n + 1 \<and> 1 \<le> n"
  then obtain post' where "L = pre @ Sendto msg dst # post'"
    using assms(2) by (auto simp add: snoc_eq_append_Cons)
  then show "ack_received n pre"
    using assms(1) a unfolding lock_step_def by blast
qed

lemma lock_step_send:
  assumes "lock_step L"
    and "\<And>n. packet_opcode m = 3 \<Longrightarrow> packet_block m = n + 1 \<Longrightarrow> 1 \<le> n \<Longrightarrow> ack_received n L"
  shows "lock_step (L @ [Sendto m a])"
  unfolding lock_step_def
proof (intro allI impI)
  fix pre msg dst post n
  assume a: "L @ [Sendto m a] = pre @ Sendto msg dst # post \<and> packet_opcode msg = 3 \<and>
    packet_block msg = n + 1 \<and> 1 \<le> n"
  then consider "pre = L" "msg = m" | post' where "L = pre @ Sendto msg dst # post'"
    by (auto simp add: snoc_eq_append_Cons)
  then show "ack_received n pre"
  proof cases
    case 1
    then show ?thesis using assms(2) a by blast
  next
    case 2
    then show ?thesis using assms(1) a unfolding lock_step_def by blast
  qed
qed

lemma recvfrom_cases:
  obtains (timeout) "recvfrom n evs w = (None, w\<lparr>log := log w @ [RecvTimeout]\<rparr>)"
  | (datagram) d a where
      "recvfrom n evs w = (Some (d, a), w\<lparr>log := log w @ [Recvfrom d a]\<rparr>)"
  by (induction n evs w rule: recvfrom.induct) auto

lemma put_file_body_lock_step:
  assumes "log w = L0 @ L" and "lock_step L" and "0 \<le> b" and "b = 0 \<or> ack_received b L"
  shows "case put_file_body srv b blk w evs of
           Inl e \<Rightarrow> True
         | Inr (b', w1) \<Rightarrow>
             0 \<le> b' \<and>
             (\<exists>L'. log w1 = L0 @ L' \<and> lock_step L' \<and> (b' = 0 \<or> ack_received b' L'))"
proof (cases "b < 32767")
  case False
  then show ?thesis by (simp add: put_file_body_overflow)
next
  case True
  let ?m = "data_packet (b + 1) blk"
  let ?L1 = "L @ [Sendto ?m srv]"
  have blk: "packet_block ?m = b + 1"
    using assms(3) True by (simp add: packet_block_data)
  have l1: "lock_step ?L1"
  proof (rule lock_step_send [OF assms(2)])
    fix n
    assume "packet_block ?m = n + 1" and "1 \<le> n"
    then show "ack_received n L"
      using blk assms(4) by auto
  qed
  have r1: "b = 0 \<or> ack_received b (?L1 @ xs)" for xs
    using assms(4) ack_received_append [of b L "Sendto ?m srv # xs"] by auto
  show ?thesis
  proof (cases rule: recvfrom_cases [of 516 evs "sendto ?m srv w"])
    case timeout
    have "lock_step ((?L1 @ [RecvTimeout]) @
        [Print ''Timeout occurred while waiting for ACK. Resending...''])"
      by (intro lock_step_snoc l1) simp_all
    then show ?thesis
      using assms(1,3) True timeout
        r1 [of "[RecvTimeout, Print ''Timeout occurred while waiting for ACK. Resending...'']"]
      by (simp add: put_file_body_ok log_simps)
  next
    case (datagram d a)
    have l2: "lock_step (?L1 @ [Recvfrom d a])"
      by (intro lock_step_snoc l1) simp
    have l3: "lock_step ((?L1 @ [Recvfrom d a]) @ [Print ''Unexpected ACK received. Resending...''])"
      by (intro lock_step_snoc l2) simp
    show ?thesis
    proof (cases "packet_opcode d = 4 \<and> packet_block d = b + 1")
      case m: True
      have "Recvfrom d a \<in> set (?L1 @ [Recvfrom d a])"
        by simp
      with m have "ack_received (b + 1) (?L1 @ [Recvfrom d a])"
        unfolding ack_received_def by blast
      then show ?thesis
        using assms(1,3) True datagram m l2
        by (simp add: put_file_body_ok log_simps)
    next
      case m: False
      then show ?thesis
        using assms(1,3) True datagram l3
          r1 [of "[Recvfrom d a, Print ''Unexpected ACK received. Resending...'']"]
        by (auto simp add: put_file_body_ok log_simps)
    qed
  qed
qed

lemma put_file_loop_lock_step:
  assumes "log w = L0 @ L" and "lock_step L" and "0 \<le> b" and "b = 0 \<or> ack_received b L"
  shows "\<exists>L'. log (snd (put_file_loop srv b content w evs)) = L0 @ L' \<and> lock_step L'"
proof (rule put_file_loop_rule
    [where I = "\<lambda>b w. 0 \<le> b \<and>
         (\<exists>L. log w = L0 @ L \<and> lock_step L \<and> (b = 0 \<or> ack_received b L))"
       and F = "\<lambda>r. \<exists>L'. log (snd r) = L0 @ L' \<and> lock_step L'"])
  show "0 \<le> b \<and> (\<exists>L. log w = L0 @ L \<and> lock_step L \<and> (b = 0 \<or> ack_received b L))"
    using assms by blast
next
  fix srv :: address and b :: int and blk :: "byte list" and w :: world
    and evs :: "recv_result list"
  assume "0 \<le> b \<and> (\<exists>L. log w = L0 @ L \<and> lock_step L \<and> (b = 0 \<or> ack_received b L))"
  then obtain L where L: "log w = L0 @ L" "lock_step L" "0 \<le> b" "b = 0 \<or> ack_received b L"
    by blast
  have fin: "\<exists>L''. log (snd (Returned, print ''File transfer completed.'' w1)) = L0 @ L'' \<and>
      lock_step L''" if "log w1 = L0 @ L'" and "lock_step L'" for w1 L'
  proof -
    have "lock_step (L' @ [Print ''File transfer completed.''])"
      by (intro lock_step_snoc that) simp
    then show ?thesis using that(1) by (simp add: log_simps)
  qed
  show "case put_file_body srv b blk w evs of
          Inl e \<Rightarrow> \<exists>L'. log (snd (Raised e, w)) = L0 @ L' \<and> lock_step L'
        | Inr (b', w1) \<Rightarrow>
            (0 \<le> b' \<and> (\<exists>L. log w1 = L0 @ L \<and> lock_step L \<and> (b' = 0 \<or> ack_received b' L))) \<and>
            (\<exists>L'. log (snd (Returned, print ''File transfer completed.'' w1)) = L0 @ L' \<and>
               lock_step L')"
    using put_file_body_lock_step [OF L, of srv blk evs] L(1,2) fin
    by (auto split: sum.splits)
qed

lemma lock_step_request: "lock_step [Sendto ([0, 2] @ rest) a]"
  by (auto simp add: lock_step_def Cons_eq_append_conv packet_opcode_def
      int_from_bytes_big_simps)

lemma lock_step_Print: "lock_step [Print s]"
  by (auto simp add: lock_step_def Cons_eq_append_conv)

lemma put_file_lock_step:
  "\<exists>L. log (snd (put_file filename server_address w evs)) = log w @ L \<and> lock_step L"
proof (cases "files w filename")
  case None
  then show ?thesis
    using lock_step_Print by (auto simp add: put_file_def log_simps)
next
  case (Some content)
  let ?wrq = "[0, 2] @ encode filename @ [0] @ encode DEFAULT_TRANSFER_MODE @ [0]"
  have l: "log (sendto ?wrq server_address w) = log w @ [Sendto ?wrq server_address]"
    by (simp add: log_simps)
  have "\<exists>L'. log (snd (put_file_loop server_address 0 content
      (sendto ?wrq server_address w) evs)) = log w @ L' \<and> lock_step L'"
    by (rule put_file_loop_lock_step [OF l lock_step_request]) simp_all
  then show ?thesis
    using Some by (simp add: put_file_def send_wrq_eq)
qed

subsection \<open>Long runs of acknowledged blocks\<close>

lemma take_516_ack: "take 516 (ack_packet n) = ack_packet n"
  by (simp add: ack_packet_def u16_bytes_def)

lemma put_file_loop_acked_blocks:
  "0 \<le> b \<Longrightarrow> b + int n \<le> 32767 \<Longrightarrow> 512 * n \<le> length content \<Longrightarrow>
     \<exists>w'. put_file_loop srv b content w (ack_stream (b + 1) n a @ evs) =
           put_file_loop srv (b + int n) (drop (512 * n) content) w' evs"
proof (induction n arbitrary: b content w)
  case 0
  then show ?case by auto
next
  case (Suc n)
  let ?w1 = "(sendto (data_packet (b + 1) (take 512 content)) srv w)
      \<lparr>log := log (sendto (data_packet (b + 1) (take 512 content)) srv w) @
         [Recvfrom (ack_packet (b + 1)) a]\<rparr>"
  have body: "put_file_body srv b (take 512 content) w (ack_stream (b + 1) (Suc n) a @ evs) =
      Inr (b + 1, ?w1)"
    using Suc.prems
    by (simp add: put_file_body_ok take_516_ack packet_opcode_ack packet_block_ack)
  have step: "put_file_loop srv b content w (ack_stream (b + 1) (Suc n) a @ evs) =
      put_file_loop srv (b + 1) (drop 512 content) ?w1 (ack_stream (b + 1 + 1) n a @ evs)"
    using Suc.prems(3) by (subst put_file_loop_unfold, subst body) simp
  have "0 \<le> b + 1" and "b + 1 + int n \<le> 32767" and "512 * n \<le> length (drop 512 content)"
    using Suc.prems by auto
  from Suc.IH [OF this] obtain w' where
    "put_file_loop srv (b + 1) (drop 512 content) ?w1 (ack_stream (b + 1 + 1) n a @ evs) =
     put_file_loop srv (b + 1 + int n) (drop (512 * n) (drop 512 content)) w' evs"
    by blast
  moreover have "b + 1 + int n = b + int (Suc n)"
    by simp
  moreover have "drop (512 * n) (drop 512 content) = drop (512 * Suc n) content"
    by (simp add: add.commute)
  ultimately have "put_file_loop srv b content w (ack_stream (b + 1) (Suc n) a @ evs) =
      put_file_loop srv (b + int (Suc n)) (drop (512 * Suc n) content) w' evs"
    using step by metis
  then show ?case ..
qed

subsection \<open>The local file of a download, and the error catalogue\<close>

lemma get_file_truncates_first:
  "get_file filename server_address w evs =
     get_file_loop filename 1
       (w\<lparr>log := log w @
            [Sendto ([0, 1] @ encode filename @ [0] @ encode ''octet'' @ [0]) server_address],
          files := (files w)(filename \<mapsto> [])\<rparr>)
       evs"
  by (simp add: get_file_def send_rrq_eq sendto_def open_wb_def DEFAULT_TRANSFER_MODE_def)

lemma get_file_forgets_old_contents:
  "get_file filename server_address (w\<lparr>files := (files w)(filename \<mapsto> old)\<rparr>) evs =
   get_file filename server_address (w\<lparr>files := (files w)(filename \<mapsto> old')\<rparr>) evs"
  by (simp add: get_file_truncates_first)

lemma ERROR_CODE_defined:
  "0 \<le> c \<Longrightarrow> c \<le> 7 \<Longrightarrow> \<exists>reason. ERROR_CODE c = Some reason"
proof -
  assume "0 \<le> c" and "c \<le> 7"
  then have "c = 0 \<or> c = 1 \<or> c = 2 \<or> c = 3 \<or> c = 4 \<or> c = 5 \<or> c = 6 \<or> c = 7"
    by arith
  then show ?thesis
    by (auto simp add: ERROR_CODE_def)
qed

lemma ERROR_CODE_undefined: "7 < c \<Longrightarrow> ERROR_CODE c = None"
  by (simp add: ERROR_CODE_def)

lemma get_file_body_known_error:
  assumes "packet_opcode data = 5" and "packet_block data \<le> 7"
  shows "\<exists>reason. ERROR_CODE (packet_block data) = Some reason \<and>
           get_file_body filename e data a w =
             Inl (Returned,
                  os_remove filename
                    (print (''Error '' @ str_int (packet_block data) @ '': '' @ reason) w))"
proof -
  obtain reason where "ERROR_CODE (packet_block data) = Some reason"
    using ERROR_CODE_defined [OF packet_block_nonneg assms(2)] by blast
  then show ?thesis
    using assms(1) by (simp add: get_file_body_ERROR)
qed

lemma get_file_body_unknown_error:
  assumes "packet_opcode data = 5" and "7 < packet_block data"
  shows "get_file_body filename e data a w = Inl (Raised (KeyError (packet_block data)), w)"
  using assms by (simp add: get_file_body_ERROR ERROR_CODE_undefined)



text \<open>
  Block numbers from 1 to 32767: both sessions start at block 1, the numbers go up by
  one, and the two bytes written into a packet read back as the number.
\<close>

lemma block_numbers_up_to_32767:
  assumes "1 \<le> n" and "n \<le> 32767"
  shows "get_file filename server_address w evs =
           get_file_loop filename 1
             (open_wb filename
                (sendto ([0, 1] @ encode filename @ [0] @ encode ''octet'' @ [0])
                   server_address w)) evs
    \<and> (\<exists>L. log (snd (put_file_loop server_address 0 content w evs)) =
          log w @ Sendto (data_packet 1 (take 512 content)) server_address # L)
    \<and> send_ack n a w = Inr (sendto (ack_packet n) a w)
    \<and> packet_block (ack_packet n) = n
    \<and> pack_hhs (OPCODE DATA) n blk = Inr (data_packet n blk)
    \<and> packet_block (data_packet n blk) = n
    \<and> (packet_opcode data = 3 \<and> packet_block data = n \<and> length (drop 4 data) = 512 \<longrightarrow>
         get_file_body filename n data a w =
           Inr (n + 1, sendto (ack_packet n) a (file_write filename (drop 4 data) w)))
    \<and> (packet_opcode data = 3 \<and> packet_block data \<noteq> n \<and> length (drop 4 data) = 512 \<longrightarrow>
         get_file_body filename n data a w = Inr (n, w))
    \<and> (packet_opcode (take 516 d) = 4 \<and> packet_block (take 516 d) = n \<longrightarrow>
         put_file_body server_address (n - 1) blk w (Datagram d a # evs) =
           Inr (n - 1 + 1,
                w\<lparr>log := log w @ [Sendto (data_packet n blk) server_address,
                                   Recvfrom (take 516 d) a]\<rparr>))"
proof -
  have "\<exists>L. log (snd (put_file_loop server_address 0 content w evs)) =
          log w @ Sendto (data_packet 1 (take 512 content)) server_address # L"
    using put_file_loop_first_send [of 0 server_address content w evs] by simp
  moreover have "send_ack n a w = Inr (sendto (ack_packet n) a w)"
    using assms by (simp add: send_ack_ok)
  moreover have "packet_block (ack_packet n) = n" "packet_block (data_packet n blk) = n"
    using assms by (simp_all add: packet_block_ack packet_block_data)
  moreover have "pack_hhs (OPCODE DATA) n blk = Inr (data_packet n blk)"
    using assms by (simp add: pack_hhs_ok)
  moreover have "get_file_body filename n data a w =
           Inr (n + 1, sendto (ack_packet n) a (file_write filename (drop 4 data) w))"
    if "packet_opcode data = 3 \<and> packet_block data = n \<and> length (drop 4 data) = 512"
    using that assms by (simp add: get_file_body_DATA send_ack_ok)
  moreover have "get_file_body filename n data a w = Inr (n, w)"
    if "packet_opcode data = 3 \<and> packet_block data \<noteq> n \<and> length (drop 4 data) = 512"
    using that by (simp add: get_file_body_DATA)
  moreover have "put_file_body server_address (n - 1) blk w (Datagram d a # evs) =
           Inr (n - 1 + 1,
                w\<lparr>log := log w @ [Sendto (data_packet n blk) server_address,
                                   Recvfrom (take 516 d) a]\<rparr>)"
    if "packet_opcode (take 516 d) = 4 \<and> packet_block (take 516 d) = n"
    using that assms by (simp add: put_file_body_ok sendto_def)
  ultimately show ?thesis
    by (simp add: get_file_def send_rrq_eq DEFAULT_TRANSFER_MODE_def)
qed

subsection \<open>Last-block detection in the download session\<close>

text \<open>
  Claim C1. In \<^verbatim>\<open>get_file\<close> a DATA packet whose payload is shorter than 512 bytes
  is meant to end the loop with success in every case. The run below is a transfer of
  32767 full blocks followed by a three-byte block numbered 32768. The last block is
  the expected one, so it is written and acknowledged before its length is looked at;
  \<^verbatim>\<open>send_ack\<close> packs the block number with the signed format \<^verbatim>\<open>'>hh'\<close>,
  32768 is out of its range, and the session ends with an uncaught
  \<^verbatim>\<open>struct.error\<close> instead of leaving the loop.
\<close>

theorem get_file_short_block_32768:
  "fst (get_file ''f'' (''h'', 3333) \<lparr>files = Map.empty, log = []\<rparr>
          (data_stream 1 32767 (''h'', 4000) @
           [Datagram (data_packet 32768 [1, 2, 3]) (''h'', 4000)])) =
   Raised StructError"
proof -
  obtain w' where
    "get_file_loop ''f'' 1
       (open_wb ''f'' (sendto ([0, 1] @ encode ''f'' @ [0] @ encode ''octet'' @ [0])
          (''h'', 3333) \<lparr>files = Map.empty, log = []\<rparr>))
       (data_stream 1 32767 (''h'', 4000) @
        [Datagram (data_packet 32768 [1, 2, 3]) (''h'', 4000)]) =
     get_file_loop ''f'' (1 + int 32767) w'
       [Datagram (data_packet 32768 [1, 2, 3]) (''h'', 4000)]"
    using get_file_loop_full_blocks [of 1 32767] by force
  moreover have "take 516 (data_packet 32768 [1, 2, 3]) = data_packet 32768 [1, 2, 3]"
    by (simp add: data_packet_def u16_bytes_def)
  moreover have "packet_block (data_packet 32768 [1, 2, 3]) = 32768"
    by (simp add: data_packet_def packet_block_u16)
  ultimately show ?thesis
    by (simp add: get_file_def send_rrq_eq DEFAULT_TRANSFER_MODE_def
        get_file_loop_Datagram get_file_body_data send_ack_overflow)
qed

subsection \<open>Completion of the upload session\<close>

text \<open>
  Claim C2. The upload of a 512-byte file sends block 1, receives its ACK and sends the
  empty block 2. The wait for the ACK of block 2 times out; the client reports that it
  is resending, sends nothing more, reports completion and returns: the loop is left
  on the length of the block alone, whether or not the block was acknowledged.
\<close>

theorem put_file_completes_without_ack:
  "put_file ''f'' (''h'', 3333) \<lparr>files = [''f'' \<mapsto> replicate 512 7], log = []\<rparr>
     [Datagram [0, 4, 0, 1] (''h'', 4000), Timeout] =
   (Returned,
    \<lparr>files = [''f'' \<mapsto> replicate 512 7],
     log = [Sendto [0, 2, 102, 0, 111, 99, 116, 101, 116, 0] (''h'', 3333),
            Sendto ([0, 3, 0, 1] @ replicate 512 7) (''h'', 3333),
            Recvfrom [0, 4, 0, 1] (''h'', 4000),
            Sendto [0, 3, 0, 2] (''h'', 3333),
            RecvTimeout,
            Print ''Timeout occurred while waiting for ACK. Resending...'',
            Print ''File transfer completed.'']\<rparr>)"
  by (simp add: put_file_def send_wrq_eq sendto_def print_def
      DEFAULT_TRANSFER_MODE_def encode_def put_file_loop_unfold put_file_body_def
      pack_data_small int_from_bytes_big_simps)

subsection \<open>ERROR packets in the download session\<close>

text \<open>
  Claim C4. An ERROR packet with code 8, which is outside the catalogue, makes the
  lookup \<^verbatim>\<open>ERROR_CODE[error_code]\<close> raise \<^verbatim>\<open>KeyError\<close>: nothing is printed, the
  local file is not removed, and the session ends with an uncaught exception.
\<close>

theorem get_file_undefined_error_code:
  "get_file ''f'' (''h'', 3333) \<lparr>files = Map.empty, log = []\<rparr>
     [Datagram [0, 5, 0, 8, 0] (''h'', 4000)] =
   (Raised (KeyError 8),
    \<lparr>files = [''f'' \<mapsto> []],
     log = [Sendto [0, 1, 102, 0, 111, 99, 116, 101, 116, 0] (''h'', 3333),
            Recvfrom [0, 5, 0, 8, 0] (''h'', 4000)]\<rparr>)"
  by (simp add: get_file_def send_rrq_eq sendto_def open_wb_def
      DEFAULT_TRANSFER_MODE_def encode_def get_file_loop_Datagram get_file_body_def
      int_from_bytes_big_simps ERROR_CODE_def)

subsection \<open>Timeouts in the download session\<close>

text \<open>
  Claim C5. Whatever the state of the download loop (any expected block number, any
  contents written so far), a receive that times out ends the session at once: the
  timeout is reported, the local file is removed, the process exits with status 1,
  nothing is sent again and no further receive is attempted (the remaining input is
  not looked at). In particular, when nothing ever answers the RRQ, the session sends
  the RRQ, reports the timeout and leaves no local file.
\<close>

theorem get_file_timeout_is_fatal:
  "get_file_loop filename e w (Timeout # evs) =
     (SysExit 1,
      w\<lparr>files := (files w)(filename := None),
        log := log w @ [RecvTimeout, Print ''Timeout occurred. No response from server.'']\<rparr>)
   \<and> get_file_loop filename e w [] =
     (SysExit 1,
      w\<lparr>files := (files w)(filename := None),
        log := log w @ [RecvTimeout, Print ''Timeout occurred. No response from server.'']\<rparr>)
   \<and> get_file filename server_address w [] =
     (SysExit 1,
      w\<lparr>files := (files w)(filename := None),
        log := log w @
          [Sendto ([0, 1] @ encode filename @ [0] @ encode ''octet'' @ [0]) server_address,
           RecvTimeout, Print ''Timeout occurred. No response from server.'']\<rparr>)"
  by (simp add: get_file_loop_Nil get_file_loop_Timeout get_file_timeout_def get_file_def
      send_rrq_eq sendto_def open_wb_def os_remove_def print_def DEFAULT_TRANSFER_MODE_def)

subsection \<open>A local file that exists before the download\<close>

text \<open>
  Claim C10. A local file \<^verbatim>\<open>f\<close> with three bytes exists before the download.
  It is truncated when the session opens it. The server then answers with an ERROR
  packet whose code, 9, is outside the catalogue: the lookup of the code raises
  \<^verbatim>\<open>KeyError\<close> before \<^verbatim>\<open>os.remove\<close> is reached, so the file is not deleted; it
  is left empty, and its former contents are lost.
\<close>

theorem get_file_keeps_truncated_file:
  "get_file ''f'' (''h'', 3333) \<lparr>files = [''f'' \<mapsto> [1, 2, 3]], log = []\<rparr>
     [Datagram [0, 5, 0, 9, 0] (''h'', 4000)] =
   (Raised (KeyError 9),
    \<lparr>files = [''f'' \<mapsto> []],
     log = [Sendto [0, 1, 102, 0, 111, 99, 116, 101, 116, 0] (''h'', 3333),
            Recvfrom [0, 5, 0, 9, 0] (''h'', 4000)]\<rparr>)"
  by (simp add: get_file_def send_rrq_eq sendto_def open_wb_def
      DEFAULT_TRANSFER_MODE_def encode_def get_file_loop_Datagram get_file_body_def
      int_from_bytes_big_simps ERROR_CODE_def)

subsection \<open>A reply that does not acknowledge the block just sent\<close>



subsection \<open>Packets the sessions do not expect\<close>




subsection \<open>The address the client sends to\<close>

text \<open>
  Claim C3, as stated, fails in both sessions. In the download below the first DATA
  packet comes from port 4000 and the second from port 5000: the second ACK goes to
  port 5000, not to the address of the first reply. In the upload below the ACKs come
  from port 4000, and the second DATA packet still goes to the configured port 3333.
\<close>

theorem peer_address_is_not_adopted:
  "log (snd (get_file ''f'' (''h'', 3333) \<lparr>files = Map.empty, log = []\<rparr>
       [Datagram ([0, 3, 0, 1] @ replicate 512 7) (''h'', 4000),
        Datagram [0, 3, 0, 2, 65] (''h'', 5000)])) =
     [Sendto [0, 1, 102, 0, 111, 99, 116, 101, 116, 0] (''h'', 3333),
      Recvfrom ([0, 3, 0, 1] @ replicate 512 7) (''h'', 4000),
      Sendto [0, 4, 0, 1] (''h'', 4000),
      Recvfrom [0, 3, 0, 2, 65] (''h'', 5000),
      Sendto [0, 4, 0, 2] (''h'', 5000),
      Print ''File transfer completed.'']
   \<and> log (snd (put_file ''f'' (''h'', 3333)
       \<lparr>files = [''f'' \<mapsto> replicate 512 7], log = []\<rparr>
       [Datagram [0, 4, 0, 1] (''h'', 4000), Datagram [0, 4, 0, 2] (''h'', 4000)])) =
     [Sendto [0, 2, 102, 0, 111, 99, 116, 101, 116, 0] (''h'', 3333),
      Sendto ([0, 3, 0, 1] @ replicate 512 7) (''h'', 3333),
      Recvfrom [0, 4, 0, 1] (''h'', 4000),
      Sendto [0, 3, 0, 2] (''h'', 3333),
      Recvfrom [0, 4, 0, 2] (''h'', 4000),
      Print ''File transfer completed.'']"
proof -
  have "log (snd (get_file ''f'' (''h'', 3333) \<lparr>files = Map.empty, log = []\<rparr>
       [Datagram ([0, 3, 0, 1] @ replicate 512 7) (''h'', 4000),
        Datagram [0, 3, 0, 2, 65] (''h'', 5000)])) =
     [Sendto [0, 1, 102, 0, 111, 99, 116, 101, 116, 0] (''h'', 3333),
      Recvfrom ([0, 3, 0, 1] @ replicate 512 7) (''h'', 4000),
      Sendto [0, 4, 0, 1] (''h'', 4000),
      Recvfrom [0, 3, 0, 2, 65] (''h'', 5000),
      Sendto [0, 4, 0, 2] (''h'', 5000),
      Print ''File transfer completed.'']"
    by (simp add: get_file_def send_rrq_eq sendto_def open_wb_def print_def file_write_def
        DEFAULT_TRANSFER_MODE_def encode_def get_file_loop_Datagram get_file_body_def
        int_from_bytes_big_simps send_ack_def pack_hh_def pack_h_def Let_def)
  moreover have "log (snd (put_file ''f'' (''h'', 3333)
       \<lparr>files = [''f'' \<mapsto> replicate 512 7], log = []\<rparr>
       [Datagram [0, 4, 0, 1] (''h'', 4000), Datagram [0, 4, 0, 2] (''h'', 4000)])) =
     [Sendto [0, 2, 102, 0, 111, 99, 116, 101, 116, 0] (''h'', 3333),
      Sendto ([0, 3, 0, 1] @ replicate 512 7) (''h'', 3333),
      Recvfrom [0, 4, 0, 1] (''h'', 4000),
      Sendto [0, 3, 0, 2] (''h'', 3333),
      Recvfrom [0, 4, 0, 2] (''h'', 4000),
      Print ''File transfer completed.'']"
    by (simp add: put_file_def send_wrq_eq sendto_def print_def
        DEFAULT_TRANSFER_MODE_def encode_def put_file_loop_unfold put_file_body_def
        pack_data_small int_from_bytes_big_simps)
  ultimately show ?thesis by (rule conjI)
qed

text \<open>
  Claim C3, amended, for the download session. The request goes to the configured
  server address. Every other packet the session sends is an ACK; it directly follows
  the receipt of a DATA packet with the same block number and is sent to the source
  address of that DATA packet. No peer address is kept from one packet to the next.
\<close>

theorem get_file_acks_go_to_sender:
  assumes "log (snd (get_file filename server_address w evs)) =
             log w @ pre @ Sendto msg dst # post"
  shows "(pre = [] \<and> dst = server_address \<and> packet_opcode msg = 1) \<or>
         (\<exists>pre' d. pre = pre' @ [Recvfrom d dst] \<and> packet_opcode d = 3 \<and>
            packet_opcode msg = 4 \<and> packet_block msg = packet_block d)"
proof -
  let ?rrq = "[0, 1] @ encode filename @ [0] @ encode DEFAULT_TRANSFER_MODE @ [0]"
  let ?w1 = "open_wb filename (sendto ?rrq server_address w)"
  have "log ?w1 = log w @ [Sendto ?rrq server_address]"
    by (simp add: log_simps)
  moreover have "sends_justified server_address [Sendto ?rrq server_address]"
    by (rule sends_justified_rrq) (rule packet_opcode_request)
  ultimately obtain L' where
    "log (snd (get_file_loop filename 1 ?w1 evs)) = log w @ L'"
    and j: "sends_justified server_address L'"
    using get_file_loop_justified by blast
  then have "L' = pre @ Sendto msg dst # post"
    using assms by (simp add: get_file_def send_rrq_eq)
  with j show ?thesis
    unfolding sends_justified_def ack_answers_data_def by blast
qed

theorem get_file_acks_go_to_sender_witness:
  "\<exists>pre' d.
      [Sendto [0, 1, 102, 0, 111, 99, 116, 101, 116, 0] (''h'', 3333),
       Recvfrom [0, 3, 0, 1, 65] (''h'', 4000)] = pre' @ [Recvfrom d (''h'', 4000)]
    \<and> packet_opcode d = 3 \<and> packet_opcode [0, 4, 0, 1] = 4
    \<and> packet_block [0, 4, 0, 1] = packet_block d"
  using get_file_acks_go_to_sender
    [where filename = "''f''" and server_address = "(''h'', 3333)"
       and w = "\<lparr>files = Map.empty, log = []\<rparr>"
       and evs = "[Datagram [0, 3, 0, 1, 65] (''h'', 4000)]"
       and pre = "[Sendto [0, 1, 102, 0, 111, 99, 116, 101, 116, 0] (''h'', 3333),
                   Recvfrom [0, 3, 0, 1, 65] (''h'', 4000)]"
       and msg = "[0, 4, 0, 1]" and dst = "(''h'', 4000)"
       and post = "[Print ''File transfer completed.'']"]
  by (simp add: get_file_def send_rrq_eq sendto_def open_wb_def print_def file_write_def
      DEFAULT_TRANSFER_MODE_def encode_def get_file_loop_Datagram get_file_body_def
      int_from_bytes_big_simps send_ack_def pack_hh_def pack_h_def Let_def)

subsection \<open>Lock-step block numbers\<close>

text \<open>
  Claim C7. In every run of the download session the ACK packets the session sends
  carry, in the order they are sent, the block numbers \<open>1, 2, \<dots>, k\<close> for some
  \<open>k\<close>: no gap and no number twice. In every run of the upload session, when a DATA
  packet numbered \<open>n + 1\<close> is sent, for a block number \<open>n \<ge> 1\<close>, an ACK numbered
  \<open>n\<close> has been received earlier in the run. (Block numbers start at 1: the DATA
  packet numbered 1 is sent right after the WRQ.)
\<close>

theorem sessions_are_lock_step:
  "(\<exists>L k. log (snd (get_file filename server_address w evs)) = log w @ L \<and>
      sent_acks L = [1..k])
   \<and> (\<forall>pre msg dst post n.
        log (snd (put_file local_file server w' replies)) =
          log w' @ pre @ Sendto msg dst # post \<and>
        packet_opcode msg = 3 \<and> packet_block msg = n + 1 \<and> 1 \<le> n \<longrightarrow>
        (\<exists>d a. Recvfrom d a \<in> set pre \<and> packet_opcode d = 4 \<and> packet_block d = n))"
proof (intro conjI allI impI)
  show "\<exists>L k. log (snd (get_file filename server_address w evs)) = log w @ L \<and>
      sent_acks L = [1..k]"
    by (rule get_file_acks)
next
  fix pre msg dst post n
  assume a: "log (snd (put_file local_file server w' replies)) =
          log w' @ pre @ Sendto msg dst # post \<and>
        packet_opcode msg = 3 \<and> packet_block msg = n + 1 \<and> 1 \<le> n"
  obtain L where "log (snd (put_file local_file server w' replies)) = log w' @ L"
    and L: "lock_step L"
    using put_file_lock_step by blast
  with a have "L = pre @ Sendto msg dst # post" by simp
  with L a have "ack_received n pre"
    unfolding lock_step_def by blast
  then show "\<exists>d a. Recvfrom d a \<in> set pre \<and> packet_opcode d = 4 \<and> packet_block d = n"
    by (simp add: ack_received_def)
qed

theorem sessions_are_lock_step_witness:
  "(\<exists>L k. log (snd (get_file ''f'' (''h'', 3333) \<lparr>files = Map.empty, log = []\<rparr>
        [Datagram ([0, 3, 0, 1] @ replicate 512 7) (''h'', 4000),
         Datagram [0, 3, 0, 2, 65] (''h'', 4000)])) = L \<and> sent_acks L = [1..k])
   \<and> (\<exists>d a. Recvfrom d a \<in> set
          [Sendto [0, 2, 102, 0, 111, 99, 116, 101, 116, 0] (''h'', 3333),
           Sendto ([0, 3, 0, 1] @ replicate 512 7) (''h'', 3333),
           Recvfrom [0, 4, 0, 1] (''h'', 4000)]
        \<and> packet_opcode d = 4 \<and> packet_block d = 1)"
proof -
  note t = sessions_are_lock_step
    [where filename = "''f''" and server_address = "(''h'', 3333)"
       and w = "\<lparr>files = Map.empty, log = []\<rparr>"
       and evs = "[Datagram ([0, 3, 0, 1] @ replicate 512 7) (''h'', 4000),
                   Datagram [0, 3, 0, 2, 65] (''h'', 4000)]"
       and local_file = "''f''" and server = "(''h'', 3333)"
       and w' = "\<lparr>files = [''f'' \<mapsto> replicate 512 7], log = []\<rparr>"
       and replies = "[Datagram [0, 4, 0, 1] (''h'', 4000), Datagram [0, 4, 0, 2] (''h'', 4000)]"]
  have run: "log (snd (put_file ''f'' (''h'', 3333)
       \<lparr>files = [''f'' \<mapsto> replicate 512 7], log = []\<rparr>
       [Datagram [0, 4, 0, 1] (''h'', 4000), Datagram [0, 4, 0, 2] (''h'', 4000)])) =
     log \<lparr>files = [''f'' \<mapsto> replicate 512 7], log = []\<rparr> @
     [Sendto [0, 2, 102, 0, 111, 99, 116, 101, 116, 0] (''h'', 3333),
      Sendto ([0, 3, 0, 1] @ replicate 512 7) (''h'', 3333),
      Recvfrom [0, 4, 0, 1] (''h'', 4000)] @
     Sendto [0, 3, 0, 2] (''h'', 3333) #
     [Recvfrom [0, 4, 0, 2] (''h'', 4000), Print ''File transfer completed.'']"
    by (simp add: put_file_def send_wrq_eq sendto_def print_def
        DEFAULT_TRANSFER_MODE_def encode_def put_file_loop_unfold put_file_body_def
        pack_data_small int_from_bytes_big_simps)
  have msg: "packet_opcode [0, 3, 0, 2] = 3 \<and> packet_block [0, 3, 0, 2] = 1 + 1 \<and> (1::int) \<le> 1"
    by (simp add: packet_opcode_def packet_block_def int_from_bytes_big_simps)
  from t have "\<exists>L k. log (snd (get_file ''f'' (''h'', 3333) \<lparr>files = Map.empty, log = []\<rparr>
        [Datagram ([0, 3, 0, 1] @ replicate 512 7) (''h'', 4000),
         Datagram [0, 3, 0, 2, 65] (''h'', 4000)])) = L \<and> sent_acks L = [1..k]"
    by simp
  moreover from t run msg have "\<exists>d a. Recvfrom d a \<in> set
          [Sendto [0, 2, 102, 0, 111, 99, 116, 101, 116, 0] (''h'', 3333),
           Sendto ([0, 3, 0, 1] @ replicate 512 7) (''h'', 3333),
           Recvfrom [0, 4, 0, 1] (''h'', 4000)]
        \<and> packet_opcode d = 4 \<and> packet_block d = 1"
    by blast
  ultimately show ?thesis by (rule conjI)
qed

subsection \<open>The range of block numbers\<close>

text \<open>
  Claim C8. Block numbers are meant to be unsigned 16-bit values that go up to 65535
  and wrap around. The upload below is of a file of \<open>32767 * 512\<close> bytes, and the
  server acknowledges every block. After the ACK of block 32767 the client reads the
  empty rest of the file and packs block number 32768 with the signed format
  \<^verbatim>\<open>'>hh'\<close>: the session ends with an uncaught \<^verbatim>\<open>struct.error\<close>, and the last
  block is never sent. The ACKs of a download fare the same: \<^verbatim>\<open>send_ack\<close> cannot
  pack 32768 or 65535, block numbers that the session reads from DATA packets as
  unsigned values.
\<close>

theorem block_32768_cannot_be_sent:
  "fst (put_file ''f'' (''h'', 3333) \<lparr>files = [''f'' \<mapsto> replicate 16776704 0], log = []\<rparr>
          (ack_stream 1 32767 (''h'', 4000))) = Raised StructError
   \<and> send_ack 32768 (''h'', 4000) \<lparr>files = Map.empty, log = []\<rparr> = Inl StructError
   \<and> send_ack 65535 (''h'', 4000) \<lparr>files = Map.empty, log = []\<rparr> = Inl StructError"
proof -
  let ?w1 = "sendto ([0, 2] @ encode ''f'' @ [0] @ encode ''octet'' @ [0]) (''h'', 3333)
      \<lparr>files = [''f'' \<mapsto> replicate 16776704 0], log = []\<rparr>"
  have "\<exists>w'. put_file_loop (''h'', 3333) 0 (replicate 16776704 0) ?w1
        (ack_stream (0 + 1) 32767 (''h'', 4000) @ []) =
      put_file_loop (''h'', 3333) (0 + int 32767) (drop (512 * 32767) (replicate 16776704 0)) w' []"
    by (rule put_file_loop_acked_blocks) simp_all
  then obtain w' where
    "put_file_loop (''h'', 3333) 0 (replicate 16776704 0) ?w1 (ack_stream 1 32767 (''h'', 4000)) =
      put_file_loop (''h'', 3333) 32767 (drop (512 * 32767) (replicate 16776704 0)) w' []"
    by auto
  moreover have "put_file_loop (''h'', 3333) 32767 content w' [] = (Raised StructError, w')"
    for content
    by (subst put_file_loop_unfold) (simp add: put_file_body_overflow)
  ultimately have "fst (put_file ''f'' (''h'', 3333)
      \<lparr>files = [''f'' \<mapsto> replicate 16776704 0], log = []\<rparr>
      (ack_stream 1 32767 (''h'', 4000))) = Raised StructError"
    by (simp add: put_file_def send_wrq_eq DEFAULT_TRANSFER_MODE_def)
  then show ?thesis
    by (simp add: send_ack_overflow)
qed

end
